theory Spec2Isabelle
  imports Complex_Main
begin

section \<open>The Simple Youtube skill: data model\<close>

text \<open>
  A shallow embedding of \<^verbatim>\<open>SimpleYoutubeSkill.search_youtube\<close> and of the three local
  functions it defines (\<^verbatim>\<open>parse_duration\<close>, the classifiers and \<^verbatim>\<open>calc_score\<close>).

  Conventions of the model:
  \<^item> a Python \<^verbatim>\<open>str\<close> is a \<open>string\<close>, each \<open>char\<close> read as the code point of the same
    number (U+0000 to U+00FF);
  \<^item> Python integers are \<open>int\<close> (unbounded); the interpreter's configurable cap on the
    number of digits \<^verbatim>\<open>int()\<close> converts is a resource limit and is not modelled;
  \<^item> Python floats are idealised as \<open>real\<close>: every arithmetic step is exact; the one
    division of an integer by an integer raises \<^verbatim>\<open>OverflowError\<close> where the quotient is
    out of the range of a float, as the source's does;
  \<^item> an exception is a value \<open>Inl e\<close> of the sum type \<open>error + 'a\<close>;
  \<^item> the collaborators the skill calls but does not define (vocabulary matcher, fuzzy
    matcher, search provider, GUI state) are fields of the record \<open>env\<close>; they are total
    functions, except the provider, whose call may raise;
  \<^item> logging is not modelled.
\<close>

datatype error =
  ValueError | IndexError | KeyError | OverflowError | ZeroDivisionError | OtherException string

text \<open>
  Modelled from the spec: the enumeration \<^verbatim>\<open>CommonPlayMediaType\<close> is declared in
  \<^verbatim>\<open>ovos_workshop\<close>, outside this repository; its members are the requested categories the
  specification lists.
\<close>

datatype CommonPlayMediaType = GENERIC | MUSIC | PODCAST | DOCUMENTARY | VIDEO | AUDIO

text \<open>
  Modelled from the spec: \<^verbatim>\<open>CommonPlayPlaybackType\<close>, also declared in \<^verbatim>\<open>ovos_workshop\<close>;
  its two members used here are suffixed, since \<open>VIDEO\<close> and \<open>AUDIO\<close> already name
  media types.
\<close>

datatype CommonPlayPlaybackType = VIDEO_playback | AUDIO_playback

text \<open>
  One entry of the provider's \<^verbatim>\<open>"videos"\<close> list. The key \<^verbatim>\<open>"length"\<close> may be absent
  (\<^verbatim>\<open>video.get("length")\<close>); \<open>r_thumbnails\<close> holds the \<^verbatim>\<open>"url"\<close> of each thumbnail, in
  order.
\<close>

record rawresult =
  r_title :: string
  r_url :: string
  r_length :: "string option"
  r_thumbnails :: "string list"

text \<open>The dictionary built for each match; \<open>length_ms\<close> is its key \<^verbatim>\<open>"length"\<close>.\<close>

record candidate =
  match_confidence :: real
  media_type :: CommonPlayMediaType
  length_ms :: int
  uri :: string
  playback :: CommonPlayPlaybackType
  image :: string
  bg_image :: string
  skill_icon :: string
  skill_logo :: string
  title :: string
  skill_id :: string

text \<open>\<^verbatim>\<open>self.settings\<close>, with the three keys \<^verbatim>\<open>__init__\<close> guarantees.\<close>

record settings =
  fallback_mode :: bool
  audio_only :: bool
  video_only :: bool

text \<open>
  The collaborators: \<^verbatim>\<open>self.voc_match\<close>, \<^verbatim>\<open>self.remove_voc\<close>, \<^verbatim>\<open>fuzzy_match\<close> with the
  token-set strategy, the expression \<^verbatim>\<open>search_youtube(phrase)["videos"]\<close> of the imported
  \<^verbatim>\<open>youtube_searcher\<close>, \<^verbatim>\<open>self.gui.connected\<close>, \<^verbatim>\<open>self.skill_icon\<close> and \<^verbatim>\<open>self.skill_id\<close>.
\<close>

record env =
  voc_match :: "string \<Rightarrow> string \<Rightarrow> bool"
  remove_voc :: "string \<Rightarrow> string \<Rightarrow> string"
  fuzzy_match :: "string \<Rightarrow> string \<Rightarrow> real"
  youtube_searcher :: "string \<Rightarrow> error + rawresult list"
  gui_connected :: bool
  self_skill_icon :: string
  self_skill_id :: string

text \<open>\<^verbatim>\<open>self._search_cache\<close>: a dictionary from phrases to provider results.\<close>

type_synonym search_cache = "string \<rightharpoonup> rawresult list"

section \<open>String built-ins\<close>

definition ascii_digit :: "char \<Rightarrow> bool" where
  "ascii_digit c = (c \<in> set ''0123456789'')"

text \<open>
  \<^verbatim>\<open>str.isdigit\<close>: non-empty, every character a digit. Below U+0100 the digits are
  \<^verbatim>\<open>0\<close> to \<^verbatim>\<open>9\<close> and the superscripts U+00B2, U+00B3 and U+00B9.
\<close>

definition isdigit_char :: "char \<Rightarrow> bool" where
  "isdigit_char c = (ascii_digit c \<or> c \<in> set [CHR 0xB2, CHR 0xB3, CHR 0xB9])"

text \<open>A field of a duration as the specification has it: a non-empty run of \<^verbatim>\<open>0\<close> to \<^verbatim>\<open>9\<close>.\<close>

definition digit_field :: "string \<Rightarrow> bool" where
  "digit_field s = (s \<noteq> [] \<and> list_all ascii_digit s)"

definition isdigit :: "string \<Rightarrow> bool" where
  "isdigit s = (s \<noteq> [] \<and> list_all isdigit_char s)"

text \<open>\<^verbatim>\<open>str.split(sep)\<close> for a one-character separator: never the empty list.\<close>

fun split_str :: "char \<Rightarrow> string \<Rightarrow> string list" where
  "split_str sep [] = [[]]"
| "split_str sep (c # cs) =
     (if c = sep then [] # split_str sep cs
      else (case split_str sep cs of
              [] \<Rightarrow> [[c]]
            | w # ws \<Rightarrow> (c # w) # ws))"

text \<open>
  \<^verbatim>\<open>int(s)\<close> for a string, base 10: optional surrounding white space, an optional sign,
  then decimal digits, single underscores allowed between digits; anything else raises
  \<^verbatim>\<open>ValueError\<close>. The white space \<^verbatim>\<open>int\<close> skips below U+0100 is tab to carriage return,
  the space, U+0085 and U+00A0; the only decimal digits there are \<^verbatim>\<open>0\<close> to \<^verbatim>\<open>9\<close>.
\<close>

definition int_space :: "char \<Rightarrow> bool" where
  "int_space c =
     (c \<in> set [CHR 0x09, CHR 0x0A, CHR 0x0B, CHR 0x0C, CHR 0x0D, CHR 0x20, CHR 0x85, CHR 0xA0])"

definition digit_or_underscore :: "char \<Rightarrow> bool" where
  "digit_or_underscore c = (ascii_digit c \<or> c = CHR ''_'')"

fun double_underscore :: "string \<Rightarrow> bool" where
  "double_underscore (a # b # cs) =
     ((a = CHR ''_'' \<and> b = CHR ''_'') \<or> double_underscore (b # cs))"
| "double_underscore _ = False"

definition dec_value :: "string \<Rightarrow> int" where
  "dec_value s = foldl (\<lambda>a c. 10 * a + (int (of_char c) - 48)) 0 s"

definition int_str :: "string \<Rightarrow> error + int" where
  "int_str s =
     (let t = dropWhile int_space s;
          neg = (case t of [] \<Rightarrow> False | c # _ \<Rightarrow> c = CHR ''-'');
          u = (case t of [] \<Rightarrow> []
               | c # cs \<Rightarrow> if c = CHR ''+'' \<or> c = CHR ''-'' then cs else t);
          body = takeWhile digit_or_underscore u;
          rest = dropWhile digit_or_underscore u
      in if body = [] then Inl ValueError
         else if hd body = CHR ''_'' then Inl ValueError
         else if last body = CHR ''_'' then Inl ValueError
         else if double_underscore body then Inl ValueError
         else if list_all int_space rest
           then Inr ((if neg then - 1 else 1) * dec_value (filter ascii_digit body))
         else Inl ValueError)"

text \<open>\<^verbatim>\<open>str.lower\<close> below U+0100: A to Z and U+00C0 to U+00DE, but not U+00D7, move up by 32.\<close>

definition lower_char :: "char \<Rightarrow> char" where
  "lower_char c =
     (let n = (of_char c :: nat)
      in if (65 \<le> n \<and> n \<le> 90) \<or> (192 \<le> n \<and> n \<le> 222 \<and> n \<noteq> 215)
         then char_of (n + 32) else c)"

definition lower :: "string \<Rightarrow> string" where
  "lower s = map lower_char s"

section \<open>Duration parsing and classification\<close>

text \<open>
  \<^verbatim>\<open>parse_duration\<close>. Only the one-field branch checks \<^verbatim>\<open>isdigit\<close>; the two- and
  three-field branches convert \<^verbatim>\<open>nums[0]\<close> unchecked, and use it for every term.
\<close>

definition parse_duration :: "rawresult \<Rightarrow> error + int" where
  "parse_duration video =
     (case r_length video of
        None \<Rightarrow> Inr 0
      | Some s \<Rightarrow>
          if s = [] then Inr 0
          else
            (let nums = split_str CHR '':'' s
             in case
                  (if length nums = 1 \<and> isdigit (hd nums) then int_str (hd nums)
                   else if length nums = 2 then
                     (case int_str (hd nums) of
                        Inl e \<Rightarrow> Inl e
                      | Inr n \<Rightarrow> Inr (n * 60 + n))
                   else if length nums = 3 then
                     (case int_str (hd nums) of
                        Inl e \<Rightarrow> Inl e
                      | Inr n \<Rightarrow> Inr (n * 60 * 60 + n * 60 + n))
                   else Inr 0)
                of
                  Inl e \<Rightarrow> Inl e
                | Inr len \<Rightarrow> Inr (len * 1000)))"

text \<open>
  \<^verbatim>\<open>a / b\<close> on two integers: the quotient as a float. The division raises
  \<^verbatim>\<open>ZeroDivisionError\<close> on a zero divisor and \<^verbatim>\<open>OverflowError\<close> when the quotient rounds
  beyond the largest float, which is from \<open>2 ^ 1024 - 2 ^ 970\<close> on in absolute value
  (half way between the largest float \<open>2 ^ 1024 - 2 ^ 971\<close> and \<open>2 ^ 1024\<close>).
\<close>

definition truediv :: "int \<Rightarrow> int \<Rightarrow> error + real" where
  "truediv a b =
     (if b = 0 then Inl ZeroDivisionError
      else if \<bar>real_of_int a / real_of_int b\<bar> \<ge> 2 ^ 1024 - 2 ^ 970 then Inl OverflowError
      else Inr (real_of_int a / real_of_int b))"

definition is_music :: "env \<Rightarrow> rawresult \<Rightarrow> bool" where
  "is_music env m = voc_match env (r_title m) ''music''"

definition is_podcast :: "env \<Rightarrow> rawresult \<Rightarrow> error + bool" where
  "is_podcast env m =
     (case parse_duration m of
        Inl e \<Rightarrow> Inl e
      | Inr ms \<Rightarrow>
          (case truediv ms 1000 of
             Inl e \<Rightarrow> Inl e
           | Inr dur \<Rightarrow>
               if dur < 30 * 60 then Inr False
               else Inr (voc_match env (r_title m) ''podcast'')))"

definition is_documentary :: "env \<Rightarrow> rawresult \<Rightarrow> error + bool" where
  "is_documentary env m =
     (case parse_duration m of
        Inl e \<Rightarrow> Inl e
      | Inr ms \<Rightarrow>
          (case truediv ms 1000 of
             Inl e \<Rightarrow> Inl e
           | Inr dur \<Rightarrow>
               if dur < 20 * 60 then Inr False
               else Inr (voc_match env (r_title m) ''documentary'')))"

text \<open>A list comprehension with a condition that may raise: the first exception ends it.\<close>

fun filter_raising :: "('a \<Rightarrow> error + bool) \<Rightarrow> 'a list \<Rightarrow> error + 'a list" where
  "filter_raising p [] = Inr []"
| "filter_raising p (x # xs) =
     (case p x of
        Inl e \<Rightarrow> Inl e
      | Inr b \<Rightarrow>
          (case filter_raising p xs of
             Inl e \<Rightarrow> Inl e
           | Inr ys \<Rightarrow> Inr (if b then x # ys else ys)))"

definition filter_results ::
  "env \<Rightarrow> CommonPlayMediaType \<Rightarrow> rawresult list \<Rightarrow> error + rawresult list" where
  "filter_results env mt results =
     (let r1 = (if mt = MUSIC then filter (is_music env) results else results)
      in case (if mt = PODCAST then filter_raising (is_podcast env) r1 else Inr r1) of
           Inl e \<Rightarrow> Inl e
         | Inr r2 \<Rightarrow>
             if mt = DOCUMENTARY then filter_raising (is_documentary env) r2 else Inr r2)"

section \<open>Request normalisation\<close>

text \<open>
  The list \<^verbatim>\<open>playback\<close> of allowed playback types. The method computes it and never
  reads it again.
\<close>

definition allowed_playback :: "env \<Rightarrow> CommonPlayMediaType \<Rightarrow> CommonPlayPlaybackType list" where
  "allowed_playback env mt =
     (if mt = AUDIO \<or> \<not> gui_connected env then [AUDIO_playback]
      else if mt \<noteq> VIDEO then [VIDEO_playback, AUDIO_playback]
      else [VIDEO_playback])"

definition explicit_request :: "env \<Rightarrow> string \<Rightarrow> bool" where
  "explicit_request env phrase = voc_match env phrase ''youtube''"

definition base_score :: "env \<Rightarrow> string \<Rightarrow> CommonPlayMediaType \<Rightarrow> int" where
  "base_score env phrase mt =
     (let b = (if mt = MUSIC then 15 else if mt = VIDEO then 25 else 0)
      in if explicit_request env phrase then b + 50 else b)"

text \<open>The phrase after the provider's name has been removed from an explicit request.\<close>

definition search_phrase :: "env \<Rightarrow> string \<Rightarrow> string" where
  "search_phrase env phrase =
     (if explicit_request env phrase then remove_voc env phrase ''youtube'' else phrase)"

section \<open>Scoring\<close>

text \<open>
  \<^verbatim>\<open>calc_score\<close>, in two steps: \<open>calc_score_raw\<close> is the local variable \<^verbatim>\<open>score\<close> when
  the \<^verbatim>\<open>return\<close> is reached, \<open>calc_score\<close> the returned \<^verbatim>\<open>min(100, score)\<close>. The
  arguments \<open>b\<close>, \<open>ex\<close> and \<open>phrase\<close> are the variables \<^verbatim>\<open>base_score\<close>,
  \<^verbatim>\<open>explicit_request\<close> and \<^verbatim>\<open>phrase\<close> the closure captures. In the chain of the ceiling
  penalty the test for \<open>MUSIC\<close> comes after the test \<open>mt \<noteq> VIDEO\<close>, as in the source.
\<close>

definition calc_score_raw ::
  "env \<Rightarrow> settings \<Rightarrow> int \<Rightarrow> bool \<Rightarrow> string \<Rightarrow> CommonPlayMediaType \<Rightarrow> rawresult \<Rightarrow> nat \<Rightarrow> real"
  where
  "calc_score_raw env st b ex phrase mt m idx =
     (let s1 = real_of_int (b - int idx * 5);
          s2 = s1 + 100 * fuzzy_match env (lower phrase) (lower (r_title m));
          s3 = (if mt = GENERIC then s2 - 10 else s2);
          s4 = (if s3 \<ge> 100 then
                  (if mt = AUDIO then s3 - 20
                   else if mt \<noteq> VIDEO then s3 - 10
                   else if mt = MUSIC \<and> \<not> is_music env m then s3 - 5
                   else s3)
                else s3)
      in if fallback_mode st then (if ex then s4 else s4 - 25) else s4)"

definition calc_score ::
  "env \<Rightarrow> settings \<Rightarrow> int \<Rightarrow> bool \<Rightarrow> string \<Rightarrow> CommonPlayMediaType \<Rightarrow> rawresult \<Rightarrow> nat \<Rightarrow> real"
  where
  "calc_score env st b ex phrase mt m idx = min 100 (calc_score_raw env st b ex phrase mt m idx)"

section \<open>Building the matches\<close>

text \<open>
  \<^verbatim>\<open>r["thumbnails"][-1]["url"].split("?")[0]\<close>: the last thumbnail of an empty list raises
  \<^verbatim>\<open>IndexError\<close>.
\<close>

definition image_url :: "rawresult \<Rightarrow> error + string" where
  "image_url r =
     (if r_thumbnails r = [] then Inl IndexError
      else (case split_str CHR ''?'' (last (r_thumbnails r)) of
              [] \<Rightarrow> Inl IndexError
            | w # _ \<Rightarrow> Inr w))"

text \<open>
  One dictionary of a comprehension. The three comprehensions of the source differ in
  the confidence, the playback type and the title only; the values are evaluated in
  the order of the keys, so a failing \<^verbatim>\<open>parse_duration\<close> is raised before a missing
  thumbnail.
\<close>

definition match_entry ::
  "env \<Rightarrow> real \<Rightarrow> CommonPlayPlaybackType \<Rightarrow> string \<Rightarrow> rawresult \<Rightarrow> error + candidate" where
  "match_entry env conf pb ttl r =
     (case parse_duration r of
        Inl e \<Rightarrow> Inl e
      | Inr ms \<Rightarrow>
          (case image_url r of
             Inl e \<Rightarrow> Inl e
           | Inr img \<Rightarrow>
               Inr \<lparr>match_confidence = conf, media_type = VIDEO, length_ms = ms,
                    uri = r_url r, playback = pb, image = img, bg_image = img,
                    skill_icon = self_skill_icon env, skill_logo = self_skill_icon env,
                    title = ttl, skill_id = self_skill_id env\<rparr>))"

text \<open>\<^verbatim>\<open>[f(idx, r) for idx, r in enumerate(results)]\<close>, counting from \<open>idx\<close>.\<close>

fun comprehension ::
  "(nat \<Rightarrow> rawresult \<Rightarrow> error + candidate) \<Rightarrow> nat \<Rightarrow> rawresult list \<Rightarrow> error + candidate list"
  where
  "comprehension f idx [] = Inr []"
| "comprehension f idx (r # rs) =
     (case f idx r of
        Inl e \<Rightarrow> Inl e
      | Inr m \<Rightarrow>
          (case comprehension f (Suc idx) rs of
             Inl e \<Rightarrow> Inl e
           | Inr ms \<Rightarrow> Inr (m # ms)))"

definition audio_only_entry ::
  "env \<Rightarrow> settings \<Rightarrow> int \<Rightarrow> bool \<Rightarrow> string \<Rightarrow> CommonPlayMediaType \<Rightarrow> nat \<Rightarrow> rawresult
     \<Rightarrow> error + candidate" where
  "audio_only_entry env st b ex phrase mt idx r =
     match_entry env (calc_score env st b ex phrase mt r idx) AUDIO_playback
       (r_title r @ '' (audio only)'') r"

definition video_entry ::
  "env \<Rightarrow> settings \<Rightarrow> int \<Rightarrow> bool \<Rightarrow> string \<Rightarrow> CommonPlayMediaType \<Rightarrow> nat \<Rightarrow> rawresult
     \<Rightarrow> error + candidate" where
  "video_entry env st b ex phrase mt idx r =
     match_entry env (calc_score env st b ex phrase mt r idx) VIDEO_playback (r_title r) r"

definition audio_duplicate_entry ::
  "env \<Rightarrow> settings \<Rightarrow> int \<Rightarrow> bool \<Rightarrow> string \<Rightarrow> CommonPlayMediaType \<Rightarrow> nat \<Rightarrow> rawresult
     \<Rightarrow> error + candidate" where
  "audio_duplicate_entry env st b ex phrase mt idx r =
     match_entry env (calc_score env st b ex phrase mt r idx - 1) AUDIO_playback
       (r_title r @ '' (audio only)'') r"

text \<open>The list \<^verbatim>\<open>matches\<close>, built from the filtered results.\<close>

definition build_matches ::
  "env \<Rightarrow> settings \<Rightarrow> int \<Rightarrow> bool \<Rightarrow> string \<Rightarrow> CommonPlayMediaType \<Rightarrow> rawresult list
     \<Rightarrow> error + candidate list" where
  "build_matches env st b ex phrase mt results =
     (if audio_only st then
        comprehension (audio_only_entry env st b ex phrase mt) 0 results
      else
        (case comprehension (video_entry env st b ex phrase mt) 0 results of
           Inl e \<Rightarrow> Inl e
         | Inr vs \<Rightarrow>
             if video_only st then Inr vs
             else
               (case comprehension (audio_duplicate_entry env st b ex phrase mt) 0 results of
                  Inl e \<Rightarrow> Inl e
                | Inr dups \<Rightarrow> Inr (vs @ dups))))"

section \<open>The search\<close>

text \<open>Everything after the results are fetched: filtering, then the matches.\<close>

definition rank_results ::
  "env \<Rightarrow> settings \<Rightarrow> string \<Rightarrow> CommonPlayMediaType \<Rightarrow> rawresult list \<Rightarrow> error + candidate list"
  where
  "rank_results env st phrase0 mt results =
     (case filter_results env mt results of
        Inl e \<Rightarrow> Inl e
      | Inr filtered \<Rightarrow>
          build_matches env st (base_score env phrase0 mt) (explicit_request env phrase0)
            (search_phrase env phrase0) mt filtered)"

text \<open>
  \<^verbatim>\<open>search_youtube\<close>: the value returned or the exception raised, and the cache as the
  call leaves it. A cache miss calls the provider; its exception gives the empty list
  and leaves the cache alone, its results are stored before they are filtered. The model
  is the body of the method; the decorator \<^verbatim>\<open>common_play_search\<close> belongs to
  \<^verbatim>\<open>ovos_workshop\<close>.
\<close>

definition search_youtube ::
  "env \<Rightarrow> settings \<Rightarrow> search_cache \<Rightarrow> string \<Rightarrow> CommonPlayMediaType
     \<Rightarrow> (error + candidate list) \<times> search_cache" where
  "search_youtube env st cache phrase0 mt =
     (let phrase = search_phrase env phrase0;
          playback = allowed_playback env mt
      in case cache phrase of
           Some results \<Rightarrow> (rank_results env st phrase0 mt results, cache)
         | None \<Rightarrow>
             (case youtube_searcher env phrase of
                Inl e \<Rightarrow> (Inr [], cache)
              | Inr results \<Rightarrow>
                  (rank_results env st phrase0 mt results, cache(phrase \<mapsto> results))))"

section \<open>Notions used in the statements\<close>

text \<open>
  The durations \<^verbatim>\<open>parse_duration\<close> accepts by its own checks: absent, empty, a first
  field of at most 300 digits \<^verbatim>\<open>0\<close> to \<^verbatim>\<open>9\<close>, a single field that \<^verbatim>\<open>isdigit\<close> rejects, or
  more than three fields. With at most 300 digits the seconds stay within the range of
  a float.
\<close>

definition duration_handled :: "string option \<Rightarrow> bool" where
  "duration_handled d =
     (case d of
        None \<Rightarrow> True
      | Some s \<Rightarrow>
          s = [] \<or>
          (let nums = split_str CHR '':'' s
           in (digit_field (hd nums) \<and> length (hd nums) \<le> 300)
              \<or> (length nums = 1 \<and> \<not> isdigit (hd nums))
              \<or> 3 < length nums))"

definition well_formed_entry :: "rawresult \<Rightarrow> bool" where
  "well_formed_entry r = (r_thumbnails r \<noteq> [] \<and> duration_handled (r_length r))"

text \<open>
  A concrete setting for the examples: one provider entry (its duration \<^verbatim>\<open>"3:49"\<close> parses
  to 183000 ms), collaborators where only the title \<^verbatim>\<open>rock music\<close> is in the music
  vocabulary, nothing names the provider and the similarity is 1 for equal strings and 0
  otherwise, and the match built from the entry.
\<close>

definition example_result :: "string \<Rightarrow> rawresult" where
  "example_result ttl =
     \<lparr>r_title = ttl, r_url = ''https://youtu.be/1'', r_length = Some ''3:49'',
      r_thumbnails = [''https://i.ytimg.com/1.jpg?s=1'']\<rparr>"

definition example_env :: "bool \<Rightarrow> (error + rawresult list) \<Rightarrow> env" where
  "example_env gui out =
     \<lparr>voc_match = (\<lambda>text voc. voc = ''music'' \<and> text = ''rock music''),
      remove_voc = (\<lambda>text voc. text),
      fuzzy_match = (\<lambda>a b. if a = b then 1 else 0),
      youtube_searcher = (\<lambda>p. out),
      gui_connected = gui,
      self_skill_icon = ''ui/ytube.jpg'',
      self_skill_id = ''skill-simple-youtube''\<rparr>"

text \<open>
  A second setting, for a \<open>PODCAST\<close> request: an entry of \<^verbatim>\<open>"31:07"\<close>, which parses to
  1891 seconds, with a title in the podcast vocabulary.
\<close>

definition example_podcast :: rawresult where
  "example_podcast =
     \<lparr>r_title = ''tech podcast'', r_url = ''https://youtu.be/2'', r_length = Some ''31:07'',
      r_thumbnails = [''https://i.ytimg.com/2.jpg?s=1'']\<rparr>"

definition example_podcast_env :: "(error + rawresult list) \<Rightarrow> env" where
  "example_podcast_env out =
     \<lparr>voc_match = (\<lambda>text voc. voc = ''podcast'' \<and> text = ''tech podcast''),
      remove_voc = (\<lambda>text voc. text),
      fuzzy_match = (\<lambda>a b. if a = b then 1 else 0),
      youtube_searcher = (\<lambda>p. out),
      gui_connected = True,
      self_skill_icon = ''ui/ytube.jpg'',
      self_skill_id = ''skill-simple-youtube''\<rparr>"

definition example_match :: "real \<Rightarrow> CommonPlayPlaybackType \<Rightarrow> string \<Rightarrow> candidate" where
  "example_match conf pb ttl =
     \<lparr>match_confidence = conf, media_type = VIDEO, length_ms = 183000,
      uri = ''https://youtu.be/1'', playback = pb,
      image = ''https://i.ytimg.com/1.jpg'', bg_image = ''https://i.ytimg.com/1.jpg'',
      skill_icon = ''ui/ytube.jpg'', skill_logo = ''ui/ytube.jpg'',
      title = ttl, skill_id = ''skill-simple-youtube''\<rparr>"

section \<open>Facts about the string built-ins\<close>

lemma split_str_nonempty: "split_str sep s \<noteq> []"
  by (induction s) (auto split: list.splits)

lemma split_str_no_sep: "sep \<notin> set s \<Longrightarrow> split_str sep s = [s]"
  by (induction s) auto

lemma split_str_append: "sep \<notin> set a \<Longrightarrow> split_str sep (a @ sep # b) = a # split_str sep b"
  by (induction a) auto

lemma ascii_digit_not_special:
  "ascii_digit c \<Longrightarrow> c \<noteq> CHR ''+'' \<and> c \<noteq> CHR ''-'' \<and> c \<noteq> CHR ''_'' \<and> c \<noteq> CHR '':''"
  by (auto simp: ascii_digit_def)

lemma dropWhile_digits: "digit_field s \<Longrightarrow> dropWhile int_space s = s"
  by (cases s) (auto simp: digit_field_def ascii_digit_def int_space_def)

lemma double_underscore_digits: "list_all ascii_digit s \<Longrightarrow> \<not> double_underscore s"
  by (induction s rule: double_underscore.induct) (auto simp: ascii_digit_def)

lemma digit_field_no_colon: "digit_field s \<Longrightarrow> CHR '':'' \<notin> set s"
  using ascii_digit_not_special by (auto simp: digit_field_def list_all_iff)

lemma digit_field_isdigit: "digit_field s \<Longrightarrow> isdigit s"
  by (simp add: digit_field_def isdigit_def isdigit_char_def list_all_iff)

text \<open>On a digit field \<^verbatim>\<open>int\<close> returns the decimal value.\<close>

lemma int_str_digits:
  assumes "digit_field s"
  shows "int_str s = Inr (dec_value s)"
proof -
  have ne: "s \<noteq> []" and ds: "list_all ascii_digit s"
    using assms by (simp_all add: digit_field_def)
  obtain c cs where s: "s = c # cs" using ne by (cases s) auto
  have c: "ascii_digit c" using ds s by simp
  have t: "dropWhile int_space s = s" using assms by (rule dropWhile_digits)
  have nosign: "c \<noteq> CHR ''+''" "c \<noteq> CHR ''-''" "c \<noteq> CHR ''_''"
    using ascii_digit_not_special[OF c] by simp_all
  have all: "\<And>x. x \<in> set s \<Longrightarrow> digit_or_underscore x"
    using ds by (simp add: list_all_iff digit_or_underscore_def)
  have tw: "takeWhile digit_or_underscore s = s"
    using all by simp
  have dw: "dropWhile digit_or_underscore s = []"
    using all by simp
  have "ascii_digit (last s)" using ne ds by (simp add: list_all_iff)
  then have lastd: "last s \<noteq> CHR ''_''"
    using ascii_digit_not_special by blast
  have f: "filter ascii_digit s = s" using ds by (simp add: list_all_iff)
  have nd: "\<not> double_underscore s" using ds by (rule double_underscore_digits)
  have u: "(case s of [] \<Rightarrow> [] | c # cs \<Rightarrow> if c = CHR ''+'' \<or> c = CHR ''-'' then cs else s) = s"
    using nosign by (simp add: s)
  have neg: "(case s of [] \<Rightarrow> False | c # _ \<Rightarrow> c = CHR ''-'') = False"
    using nosign by (simp add: s)
  have hd: "hd s \<noteq> CHR ''_''" using nosign by (simp add: s)
  show ?thesis
    unfolding int_str_def Let_def t u neg tw dw f
    using hd lastd nd ne by simp
qed

section \<open>Facts about the duration parser\<close>

lemma parse_duration_one_field:
  assumes "digit_field s"
  shows "parse_duration (r\<lparr>r_length := Some s\<rparr>) = Inr (dec_value s * 1000)"
proof -
  have ne: "s \<noteq> []" using assms by (simp add: digit_field_def)
  have sp: "split_str CHR '':'' s = [s]"
    using assms by (simp add: split_str_no_sep digit_field_no_colon)
  show ?thesis
    using ne by (simp add: parse_duration_def sp digit_field_isdigit[OF assms] int_str_digits[OF assms])
qed

lemma parse_duration_two_fields:
  assumes "digit_field m" and "CHR '':'' \<notin> set s"
  shows "parse_duration (r\<lparr>r_length := Some (m @ '':'' @ s)\<rparr>)
           = Inr ((dec_value m * 60 + dec_value m) * 1000)"
proof -
  have sp: "split_str CHR '':'' (m @ CHR '':'' # s) = [m, s]"
    using assms by (simp add: split_str_append split_str_no_sep digit_field_no_colon)
  show ?thesis
    by (simp add: parse_duration_def sp int_str_digits[OF assms(1)])
qed

lemma parse_duration_three_fields:
  assumes "digit_field h" and "CHR '':'' \<notin> set m" and "CHR '':'' \<notin> set s"
  shows "parse_duration (r\<lparr>r_length := Some (h @ '':'' @ m @ '':'' @ s)\<rparr>)
           = Inr ((dec_value h * 60 * 60 + dec_value h * 60 + dec_value h) * 1000)"
proof -
  have sp: "split_str CHR '':'' (h @ CHR '':'' # m @ CHR '':'' # s) = [h, m, s]"
    using assms by (simp add: split_str_append split_str_no_sep digit_field_no_colon)
  show ?thesis
    by (simp add: parse_duration_def sp int_str_digits[OF assms(1)])
qed

lemma digit_value_range:
  "ascii_digit c \<Longrightarrow> 0 \<le> int (of_char c) - 48 \<and> int (of_char c) - 48 \<le> 9"
  by (auto simp: ascii_digit_def)

lemma foldl_digits_bound:
  assumes "list_all ascii_digit s" and "0 \<le> a"
  shows "0 \<le> foldl (\<lambda>a c. 10 * a + (int (of_char c) - 48)) a s
       \<and> foldl (\<lambda>a c. 10 * a + (int (of_char c) - 48)) a s < (a + 1) * 10 ^ length s"
  using assms
proof (induction s arbitrary: a)
  case Nil
  then show ?case by simp
next
  case (Cons c cs)
  let ?d = "int (of_char c) - 48"
  have d: "0 \<le> ?d" "?d \<le> 9"
    using Cons.prems(1) digit_value_range[of c] by simp_all
  have a': "0 \<le> 10 * a + ?d" using d Cons.prems(2) by simp
  have cs: "list_all ascii_digit cs" using Cons.prems(1) by simp
  let ?f = "foldl (\<lambda>a c. 10 * a + (int (of_char c) - 48)) (10 * a + ?d) cs"
  from Cons.IH[OF cs a'] have lo: "0 \<le> ?f" and hi: "?f < (10 * a + ?d + 1) * 10 ^ length cs"
    by simp_all
  have "10 * a + ?d + 1 \<le> 10 * a + 10" using d by simp
  then have "(10 * a + ?d + 1) * 10 ^ length cs \<le> (10 * a + 10) * (10 ^ length cs :: int)"
    by (rule mult_right_mono) simp
  also have "\<dots> = (a + 1) * 10 ^ length (c # cs)" by (simp add: algebra_simps)
  finally have "?f < (a + 1) * 10 ^ length (c # cs)" using hi by linarith
  then show ?case using lo by simp
qed

lemma dec_value_bound:
  assumes "digit_field s" and "length s \<le> n"
  shows "0 \<le> dec_value s \<and> dec_value s < 10 ^ n"
proof -
  have ds: "list_all ascii_digit s" using assms(1) by (simp add: digit_field_def)
  from foldl_digits_bound[OF ds, of 0] have
    "0 \<le> dec_value s" and "dec_value s < 10 ^ length s"
    by (simp_all add: dec_value_def)
  moreover have "(10::int) ^ length s \<le> 10 ^ n"
    using assms(2) by (intro power_increasing) simp_all
  ultimately show ?thesis by linarith
qed

text \<open>A duration the parser accepts gives milliseconds from 0 to below \<open>3661000 * 10 ^ 300\<close>.\<close>

lemma parse_duration_handled:
  assumes "duration_handled (r_length r)"
  shows "\<exists>ms. parse_duration r = Inr ms \<and> 0 \<le> ms \<and> ms < 3661000 * 10 ^ 300"
proof (cases "r_length r")
  case None
  then show ?thesis by (simp add: parse_duration_def)
next
  case (Some s)
  show ?thesis
  proof (cases "s = []")
    case True
    then show ?thesis using Some by (simp add: parse_duration_def)
  next
    case False
    let ?nums = "split_str CHR '':'' s"
    from assms Some False consider
        (digits) "digit_field (hd ?nums)" "length (hd ?nums) \<le> 300"
      | (single) "length ?nums = 1" "\<not> isdigit (hd ?nums)"
      | (many) "3 < length ?nums"
      by (auto simp: duration_handled_def Let_def)
    then show ?thesis
    proof cases
      case digits
      let ?n = "dec_value (hd ?nums)"
      have n: "0 \<le> ?n" "?n < 10 ^ 300"
        using dec_value_bound[OF digits] by simp_all
      have i: "int_str (hd ?nums) = Inr ?n" using digits(1) by (rule int_str_digits)
      have "parse_duration r = Inr (?n * 1000) \<or> parse_duration r = Inr ((?n * 60 + ?n) * 1000)
          \<or> parse_duration r = Inr ((?n * 60 * 60 + ?n * 60 + ?n) * 1000)
          \<or> parse_duration r = Inr 0"
        using Some False by (simp add: parse_duration_def Let_def i)
      then show ?thesis using n by auto
    next
      case single
      then show ?thesis
        using Some False by (simp add: parse_duration_def Let_def)
    next
      case many
      then show ?thesis
        using Some False by (simp add: parse_duration_def Let_def)
    qed
  qed
qed

text \<open>There the division by 1000 stays clear of the overflow, which is modelled.\<close>

lemma truediv_in_range:
  assumes "0 \<le> ms" and "ms < 3661000 * 10 ^ 300"
  shows "truediv ms 1000 = Inr (real_of_int ms / 1000)"
proof -
  have "real_of_int ms < real_of_int (3661000 * 10 ^ 300)"
    using assms(2) by (simp only: of_int_less_iff)
  then have "real_of_int ms / 1000 < 3661 * 10 ^ 300" by simp
  moreover have "(3661 * 10 ^ 300 :: real) < 2 ^ 1024 - 2 ^ 970" by simp
  moreover have "0 \<le> real_of_int ms / 1000" using assms(1) by simp
  ultimately have "\<bar>real_of_int ms / real_of_int 1000\<bar> < 2 ^ 1024 - 2 ^ 970" by simp
  then show ?thesis by (simp add: truediv_def)
qed

lemma truediv_overflow:
  "truediv (1000 * (2 ^ 1024 - 2 ^ 970)) 1000 = Inl OverflowError
   \<and> truediv (3661000 * 10 ^ 300) 1000 = Inr (3661 * 10 ^ 300)"
  by (simp add: truediv_def)

section \<open>Facts about comprehensions and matches\<close>

lemma comprehension_length:
  "comprehension f k rs = Inr ms \<Longrightarrow> length ms = length rs"
  by (induction rs arbitrary: k ms) (auto split: sum.splits)

lemma comprehension_nth:
  "comprehension f k rs = Inr ms \<Longrightarrow> i < length rs \<Longrightarrow> f (k + i) (rs ! i) = Inr (ms ! i)"
proof (induction rs arbitrary: k ms i)
  case Nil
  then show ?case by simp
next
  case (Cons r rs)
  from Cons.prems(1) obtain m ms' where
    m: "f k r = Inr m" and ms': "comprehension f (Suc k) rs = Inr ms'" and ms: "ms = m # ms'"
    by (auto split: sum.splits)
  show ?case
  proof (cases i)
    case 0
    then show ?thesis using m ms by simp
  next
    case (Suc j)
    then have "j < length rs" using Cons.prems(2) by simp
    from Cons.IH[OF ms' this] show ?thesis using Suc ms by simp
  qed
qed

text \<open>
  Two comprehensions over the same results: when every entry the first builds has a
  related entry in the second, the second list exists and is related element by element.
\<close>

lemma comprehension_rel:
  assumes "comprehension f k rs = Inr ms"
    and "\<And>i r c. f i r = Inr c \<Longrightarrow> \<exists>c'. g i r = Inr c' \<and> P c c'"
  shows "\<exists>ms'. comprehension g k rs = Inr ms' \<and> list_all2 P ms ms'"
  using assms(1)
proof (induction rs arbitrary: k ms)
  case Nil
  then show ?case by simp
next
  case (Cons r rs)
  from Cons.prems obtain m ms0 where
    m: "f k r = Inr m" and ms0: "comprehension f (Suc k) rs = Inr ms0" and ms: "ms = m # ms0"
    by (auto split: sum.splits)
  from assms(2)[OF m] obtain m' where m': "g k r = Inr m'" "P m m'" by blast
  from Cons.IH[OF ms0] obtain ms1 where
    ms1: "comprehension g (Suc k) rs = Inr ms1" "list_all2 P ms0 ms1" by blast
  show ?case using m' ms1 ms by simp
qed

lemma comprehension_total:
  assumes "\<And>i r. r \<in> set rs \<Longrightarrow> \<exists>c. f i r = Inr c"
  shows "\<exists>ms. comprehension f k rs = Inr ms"
  using assms
proof (induction rs arbitrary: k)
  case Nil
  then show ?case by simp
next
  case (Cons r rs)
  obtain c where c: "f k r = Inr c" using Cons.prems[of r k] by auto
  obtain ms where "comprehension f (Suc k) rs = Inr ms"
    using Cons.IH[of "Suc k"] Cons.prems by auto
  then show ?case using c by simp
qed

lemma comprehension_elem:
  assumes "comprehension f k rs = Inr ms" and "c \<in> set ms"
  shows "\<exists>i<length rs. f (k + i) (rs ! i) = Inr c"
proof -
  from assms(2) obtain i where i: "i < length ms" "ms ! i = c"
    by (auto simp: in_set_conv_nth)
  have len: "length ms = length rs" using assms(1) by (rule comprehension_length)
  then have "f (k + i) (rs ! i) = Inr c"
    using comprehension_nth[OF assms(1), of i] i by simp
  then show ?thesis using i len by auto
qed

lemma match_entry_fields:
  assumes "match_entry env conf pb ttl r = Inr c"
  shows "match_confidence c = conf" "playback c = pb" "title c = ttl" "uri c = r_url r"
  using assms by (auto simp: match_entry_def split: sum.splits)

lemma match_entry_other:
  assumes "match_entry env conf pb ttl r = Inr c"
  shows "match_entry env conf' pb' ttl' r
           = Inr (c\<lparr>match_confidence := conf', playback := pb', title := ttl'\<rparr>)"
  using assms by (auto simp: match_entry_def split: sum.splits)

lemma match_entry_confidence:
  assumes "match_entry env conf pb ttl r = Inr c"
  shows "match_entry env conf' pb ttl r = Inr (c\<lparr>match_confidence := conf'\<rparr>)"
  using assms by (auto simp: match_entry_def split: sum.splits)

lemma image_url_total:
  assumes "r_thumbnails r \<noteq> []"
  shows "\<exists>u. image_url r = Inr u"
  using assms split_str_nonempty[of "CHR ''?''" "last (r_thumbnails r)"]
  by (auto simp: image_url_def split: list.splits)

lemma match_entry_total:
  assumes "well_formed_entry r"
  shows "\<exists>c. match_entry env conf pb ttl r = Inr c"
proof -
  obtain ms where "parse_duration r = Inr ms"
    using assms parse_duration_handled by (auto simp: well_formed_entry_def)
  moreover obtain u where "image_url r = Inr u"
    using assms image_url_total by (auto simp: well_formed_entry_def)
  ultimately show ?thesis by (simp add: match_entry_def)
qed

lemma build_matches_elem:
  assumes "build_matches env st b ex phrase mt rs = Inr ms" and "c \<in> set ms"
  shows "\<exists>i<length rs.
           audio_only_entry env st b ex phrase mt i (rs ! i) = Inr c
         \<or> video_entry env st b ex phrase mt i (rs ! i) = Inr c
         \<or> audio_duplicate_entry env st b ex phrase mt i (rs ! i) = Inr c"
proof (cases "audio_only st")
  case True
  then have "comprehension (audio_only_entry env st b ex phrase mt) 0 rs = Inr ms"
    using assms(1) by (simp add: build_matches_def)
  from comprehension_elem[OF this assms(2)] show ?thesis by auto
next
  case False
  then obtain vs where vs: "comprehension (video_entry env st b ex phrase mt) 0 rs = Inr vs"
    using assms(1) by (auto simp: build_matches_def split: sum.splits)
  show ?thesis
  proof (cases "video_only st")
    case True
    then have "ms = vs" using assms(1) False vs by (simp add: build_matches_def)
    then show ?thesis using comprehension_elem[OF vs] assms(2) by auto
  next
    case vo: False
    then obtain dups where
      dups: "comprehension (audio_duplicate_entry env st b ex phrase mt) 0 rs = Inr dups"
      and ms: "ms = vs @ dups"
      using assms(1) False vs by (auto simp: build_matches_def split: sum.splits)
    from assms(2) ms have "c \<in> set vs \<or> c \<in> set dups" by simp
    then show ?thesis
      using comprehension_elem[OF vs] comprehension_elem[OF dups] by auto
  qed
qed

lemma build_matches_total:
  assumes "list_all well_formed_entry rs"
  shows "\<exists>ms. build_matches env st b ex phrase mt rs = Inr ms"
proof -
  have wf: "\<And>r. r \<in> set rs \<Longrightarrow> well_formed_entry r"
    using assms by (simp add: list_all_iff)
  obtain a where a: "comprehension (audio_only_entry env st b ex phrase mt) 0 rs = Inr a"
    using comprehension_total[of rs "audio_only_entry env st b ex phrase mt" 0]
      match_entry_total[OF wf] unfolding audio_only_entry_def by blast
  obtain v where v: "comprehension (video_entry env st b ex phrase mt) 0 rs = Inr v"
    using comprehension_total[of rs "video_entry env st b ex phrase mt" 0]
      match_entry_total[OF wf] unfolding video_entry_def by blast
  obtain d where d: "comprehension (audio_duplicate_entry env st b ex phrase mt) 0 rs = Inr d"
    using comprehension_total[of rs "audio_duplicate_entry env st b ex phrase mt" 0]
      match_entry_total[OF wf] unfolding audio_duplicate_entry_def by blast
  show ?thesis using a v d by (simp add: build_matches_def)
qed

lemma calc_score_le: "calc_score env st b ex phrase mt r i \<le> 100"
  by (simp add: calc_score_def)

section \<open>Facts about filtering and the search\<close>

lemma filter_raising_total:
  assumes "\<And>x. x \<in> set xs \<Longrightarrow> \<exists>b. p x = Inr b"
  shows "\<exists>ys. filter_raising p xs = Inr ys \<and> set ys \<subseteq> set xs"
  using assms
proof (induction xs)
  case Nil
  then show ?case by simp
next
  case (Cons x xs)
  obtain b where b: "p x = Inr b" using Cons.prems[of x] by auto
  obtain ys where "filter_raising p xs = Inr ys" "set ys \<subseteq> set xs"
    using Cons.IH Cons.prems by auto
  then show ?case using b by auto
qed

lemma filter_results_total:
  assumes "list_all well_formed_entry rs"
  shows "\<exists>filtered. filter_results env mt rs = Inr filtered \<and> list_all well_formed_entry filtered"
proof -
  let ?r1 = "if mt = MUSIC then filter (is_music env) rs else rs"
  have r1: "list_all well_formed_entry ?r1" using assms by (simp add: list_all_iff)
  have pod: "\<And>x. x \<in> set ?r1 \<Longrightarrow> \<exists>b. is_podcast env x = Inr b"
  proof -
    fix x assume "x \<in> set ?r1"
    then have "well_formed_entry x" using r1 by (simp add: list_all_iff)
    then obtain ms where "parse_duration x = Inr ms" "0 \<le> ms" "ms < 3661000 * 10 ^ 300"
      using parse_duration_handled by (auto simp: well_formed_entry_def)
    then show "\<exists>b. is_podcast env x = Inr b"
      using truediv_in_range[of ms] by (auto simp: is_podcast_def)
  qed
  obtain r2 where r2: "(if mt = PODCAST then filter_raising (is_podcast env) ?r1 else Inr ?r1) = Inr r2"
    and r2wf: "list_all well_formed_entry r2"
  proof (cases "mt = PODCAST")
    case True
    from filter_raising_total[of ?r1 "is_podcast env", OF pod] obtain ys where
      "filter_raising (is_podcast env) ?r1 = Inr ys" "set ys \<subseteq> set ?r1" by blast
    then show ?thesis using that[of ys] True r1 by (auto simp: list_all_iff)
  next
    case False
    then show ?thesis using that[of ?r1] r1 by simp
  qed
  have doc: "\<And>x. x \<in> set r2 \<Longrightarrow> \<exists>b. is_documentary env x = Inr b"
  proof -
    fix x assume "x \<in> set r2"
    then have "well_formed_entry x" using r2wf by (simp add: list_all_iff)
    then obtain ms where "parse_duration x = Inr ms" "0 \<le> ms" "ms < 3661000 * 10 ^ 300"
      using parse_duration_handled by (auto simp: well_formed_entry_def)
    then show "\<exists>b. is_documentary env x = Inr b"
      using truediv_in_range[of ms] by (auto simp: is_documentary_def)
  qed
  show ?thesis
  proof (cases "mt = DOCUMENTARY")
    case True
    from filter_raising_total[of r2 "is_documentary env", OF doc] obtain ys where
      "filter_raising (is_documentary env) r2 = Inr ys" "set ys \<subseteq> set r2" by blast
    then show ?thesis
      using True r2 r2wf unfolding filter_results_def Let_def
      by (auto simp: list_all_iff)
  next
    case False
    then show ?thesis
      using r2 r2wf unfolding filter_results_def Let_def by auto
  qed
qed

lemma rank_results_total:
  assumes "list_all well_formed_entry rs"
  shows "\<exists>ms. rank_results env st phrase mt rs = Inr ms"
proof -
  from filter_results_total[OF assms] obtain filtered where
    "filter_results env mt rs = Inr filtered" "list_all well_formed_entry filtered" by blast
  then show ?thesis
    using build_matches_total[of filtered] by (simp add: rank_results_def)
qed

lemma search_youtube_cases:
  assumes "fst (search_youtube env st cache phrase mt) = Inr ms"
  shows "ms = []
       \<or> (\<exists>rs filtered. filter_results env mt rs = Inr filtered
            \<and> build_matches env st (base_score env phrase mt) (explicit_request env phrase)
                 (search_phrase env phrase) mt filtered = Inr ms)"
  using assms
  by (auto simp: search_youtube_def rank_results_def Let_def split: option.splits sum.splits)

section \<open>Fallback mode\<close>

lemma calc_score_raw_fallback:
  "calc_score_raw env (st\<lparr>fallback_mode := True\<rparr>) b False phrase mt r i
     = calc_score_raw env (st\<lparr>fallback_mode := False\<rparr>) b False phrase mt r i - 25"
  by (simp add: calc_score_raw_def Let_def)

lemma fallback_entry:
  assumes "match_entry env (min 100 s - d) pb ttl r = Inr c" and "d = 0 \<or> d = 1"
  shows "\<exists>c'. match_entry env (min 100 (s - 25) - d) pb ttl r = Inr c'
           \<and> c' = c\<lparr>match_confidence := match_confidence c'\<rparr>
           \<and> match_confidence c - 25 \<le> match_confidence c'
           \<and> match_confidence c' \<le> match_confidence c
           \<and> (match_confidence c < 99 \<longrightarrow> match_confidence c' = match_confidence c - 25)"
proof -
  have c: "match_confidence c = min 100 s - d"
    using assms(1) by (rule match_entry_fields(1))
  have e: "match_entry env (min 100 (s - 25) - d) pb ttl r
          = Inr (c\<lparr>match_confidence := min 100 (s - 25) - d\<rparr>)"
    using assms(1) by (rule match_entry_confidence)
  show ?thesis
    unfolding e using c assms(2) by (auto simp: min_def)
qed

lemma fallback_build_matches:
  assumes "build_matches env (st\<lparr>fallback_mode := False\<rparr>) b False phrase mt rs = Inr ms"
  shows "\<exists>ms'. build_matches env (st\<lparr>fallback_mode := True\<rparr>) b False phrase mt rs = Inr ms'
           \<and> list_all2 (\<lambda>c c'. c' = c\<lparr>match_confidence := match_confidence c'\<rparr>
                 \<and> match_confidence c - 25 \<le> match_confidence c'
                 \<and> match_confidence c' \<le> match_confidence c
                 \<and> (match_confidence c < 99 \<longrightarrow> match_confidence c' = match_confidence c - 25))
               ms ms'"
    (is "\<exists>ms'. _ = Inr ms' \<and> list_all2 ?P ms ms'")
proof -
  let ?off = "st\<lparr>fallback_mode := False\<rparr>" and ?on = "st\<lparr>fallback_mode := True\<rparr>"
  have score: "\<And>r i. calc_score env ?on b False phrase mt r i
                 = min 100 (calc_score_raw env ?off b False phrase mt r i - 25)"
    unfolding calc_score_def calc_score_raw_fallback ..
  have a: "\<And>i r c. audio_only_entry env ?off b False phrase mt i r = Inr c
             \<Longrightarrow> \<exists>c'. audio_only_entry env ?on b False phrase mt i r = Inr c' \<and> ?P c c'"
    unfolding audio_only_entry_def score
    using fallback_entry[where d = 0] by (simp add: calc_score_def)
  have v: "\<And>i r c. video_entry env ?off b False phrase mt i r = Inr c
             \<Longrightarrow> \<exists>c'. video_entry env ?on b False phrase mt i r = Inr c' \<and> ?P c c'"
    unfolding video_entry_def score
    using fallback_entry[where d = 0] by (simp add: calc_score_def)
  have d: "\<And>i r c. audio_duplicate_entry env ?off b False phrase mt i r = Inr c
             \<Longrightarrow> \<exists>c'. audio_duplicate_entry env ?on b False phrase mt i r = Inr c' \<and> ?P c c'"
    unfolding audio_duplicate_entry_def score
    using fallback_entry[where d = 1] by (simp add: calc_score_def)
  show ?thesis
  proof (cases "audio_only st")
    case True
    then have "comprehension (audio_only_entry env ?off b False phrase mt) 0 rs = Inr ms"
      using assms by (simp add: build_matches_def)
    from comprehension_rel[where g = "audio_only_entry env ?on b False phrase mt" and P = ?P,
        OF this a]
    show ?thesis
      using True by (simp add: build_matches_def)
  next
    case False
    then obtain vs where vs: "comprehension (video_entry env ?off b False phrase mt) 0 rs = Inr vs"
      using assms by (auto simp: build_matches_def split: sum.splits)
    from comprehension_rel[where g = "video_entry env ?on b False phrase mt" and P = ?P,
        OF vs v]
    obtain vs' where
      vs': "comprehension (video_entry env ?on b False phrase mt) 0 rs = Inr vs'"
        "list_all2 ?P vs vs'" by blast
    show ?thesis
    proof (cases "video_only st")
      case True
      then show ?thesis using assms False vs vs' by (simp add: build_matches_def)
    next
      case vo: False
      then obtain dups where
        dups: "comprehension (audio_duplicate_entry env ?off b False phrase mt) 0 rs = Inr dups"
        and ms: "ms = vs @ dups"
        using assms False vs by (auto simp: build_matches_def split: sum.splits)
      from comprehension_rel[where g = "audio_duplicate_entry env ?on b False phrase mt"
          and P = ?P, OF dups d]
      obtain dups' where
        dups': "comprehension (audio_duplicate_entry env ?on b False phrase mt) 0 rs = Inr dups'"
          "list_all2 ?P dups dups'" by blast
      have "list_all2 ?P (vs @ dups) (vs' @ dups')"
        using vs'(2) dups'(2) by (rule list_all2_appendI)
      then show ?thesis
        using False vo vs' dups' ms by (simp add: build_matches_def)
    qed
  qed
qed

section \<open>The example runs\<close>

lemma example_parse: "parse_duration (example_result ttl) = Inr 183000"
  by (simp add: example_result_def parse_duration_def int_str_def digit_or_underscore_def
      ascii_digit_def int_space_def dec_value_def)

lemma example_image: "image_url (example_result ttl) = Inr ''https://i.ytimg.com/1.jpg''"
  by (simp add: example_result_def image_url_def)

lemma example_fields:
  "r_title (example_result ttl) = ttl" "r_url (example_result ttl) = ''https://youtu.be/1''"
  by (simp_all add: example_result_def)

lemma example_well_formed: "well_formed_entry (example_result ttl)"
  by (simp add: well_formed_entry_def duration_handled_def example_result_def digit_field_def
      ascii_digit_def)

lemma example_podcast_well_formed: "well_formed_entry example_podcast"
  by (simp add: well_formed_entry_def duration_handled_def example_podcast_def digit_field_def
      ascii_digit_def)

lemma example_podcast_parse: "parse_duration example_podcast = Inr 1891000"
  by (simp add: example_podcast_def parse_duration_def int_str_def digit_or_underscore_def
      ascii_digit_def int_space_def dec_value_def)

lemma example_podcast_kept: "is_podcast (example_podcast_env out) example_podcast = Inr True"
  by (simp add: is_podcast_def example_podcast_parse truediv_def)
    (simp add: example_podcast_env_def example_podcast_def)

lemmas run_defs = search_youtube_def Let_def rank_results_def filter_results_def
  build_matches_def search_phrase_def explicit_request_def base_score_def video_entry_def
  audio_only_entry_def audio_duplicate_entry_def match_entry_def calc_score_def
  calc_score_raw_def is_music_def example_env_def example_parse example_image
  example_fields example_match_def

lemma run_video:
  "fst (search_youtube (example_env True (Inr [example_result ''rock music'']))
          \<lparr>fallback_mode = fb, audio_only = False, video_only = True\<rparr>
          Map.empty ''rock music'' VIDEO)
     = Inr [example_match 100 VIDEO_playback ''rock music'']"
  by (simp add: run_defs)

lemma run_generic_other:
  "fst (search_youtube (example_env True (Inr [example_result ''rock music'']))
          \<lparr>fallback_mode = False, audio_only = False, video_only = True\<rparr>
          Map.empty ''cats'' GENERIC)
     = Inr [example_match (- 10) VIDEO_playback ''rock music'']"
  by (simp add: run_defs lower_def)

lemma run_both:
  "fst (search_youtube (example_env True (Inr [example_result ''rock music'']))
          \<lparr>fallback_mode = False, audio_only = False, video_only = False\<rparr>
          Map.empty ''rock music'' VIDEO)
     = Inr [example_match 100 VIDEO_playback ''rock music'',
            example_match 99 AUDIO_playback ''rock music (audio only)'']"
  by (simp add: run_defs)

lemma run_music:
  "fst (search_youtube
          (example_env True (Inr [example_result ''rock music'', example_result ''rock music'',
             example_result ''rock music'']))
          \<lparr>fallback_mode = False, audio_only = False, video_only = True\<rparr>
          Map.empty ''rock music'' MUSIC)
     = Inr [example_match 100 VIDEO_playback ''rock music'',
            example_match 100 VIDEO_playback ''rock music'',
            example_match 95 VIDEO_playback ''rock music'']"
  by (simp add: run_defs)

lemma run_no_gui:
  "fst (search_youtube (example_env False (Inr [example_result ''rock music'']))
          \<lparr>fallback_mode = False, audio_only = False, video_only = True\<rparr>
          Map.empty ''rock music'' GENERIC)
     = Inr [example_match 90 VIDEO_playback ''rock music'']"
  by (simp add: run_defs)

lemma run_no_thumbnail:
  "fst (search_youtube
          (example_env True (Inr [(example_result ''rock music'')\<lparr>r_thumbnails := []\<rparr>]))
          \<lparr>fallback_mode = False, audio_only = False, video_only = True\<rparr>
          Map.empty ''rock music'' VIDEO)
     = Inl IndexError"
  by (simp add: run_defs example_result_def image_url_def parse_duration_def int_str_def
      digit_or_underscore_def ascii_digit_def int_space_def dec_value_def)

lemma run_podcast:
  "fst (search_youtube (example_podcast_env (Inr [example_podcast]))
          \<lparr>fallback_mode = False, audio_only = False, video_only = True\<rparr>
          Map.empty ''tech podcast'' PODCAST)
     = Inr [\<lparr>match_confidence = 90, media_type = VIDEO, length_ms = 1891000,
             uri = ''https://youtu.be/2'', playback = VIDEO_playback,
             image = ''https://i.ytimg.com/2.jpg'', bg_image = ''https://i.ytimg.com/2.jpg'',
             skill_icon = ''ui/ytube.jpg'', skill_logo = ''ui/ytube.jpg'',
             title = ''tech podcast'', skill_id = ''skill-simple-youtube''\<rparr>]"
proof -
  have f: "filter_results (example_podcast_env (Inr [example_podcast])) PODCAST [example_podcast]
             = Inr [example_podcast]"
    by (simp add: filter_results_def example_podcast_kept)
  have i: "image_url example_podcast = Inr ''https://i.ytimg.com/2.jpg''"
    by (simp add: example_podcast_def image_url_def)
  have y: "youtube_searcher (example_podcast_env (Inr [example_podcast])) ''tech podcast''
             = Inr [example_podcast]"
    "voc_match (example_podcast_env (Inr [example_podcast])) ''tech podcast'' ''youtube'' = False"
    by (simp_all add: example_podcast_env_def)
  show ?thesis
    by (simp add: search_youtube_def Let_def rank_results_def search_phrase_def
        explicit_request_def base_score_def y f build_matches_def video_entry_def
        match_entry_def example_podcast_parse i calc_score_def calc_score_raw_def)
      (simp add: example_podcast_env_def example_podcast_def)
qed

section \<open>The claims\<close>

subsection \<open>C1: the ceiling penalty\<close>

text \<open>
  Claim C1. The claim gives the ceiling penalty of a \<open>MUSIC\<close> request as 0 for a title in
  the music vocabulary and 5 otherwise. In \<open>calc_score_raw\<close> the test \<open>mt \<noteq> VIDEO\<close>
  stands before the test for \<open>MUSIC\<close>, so a \<open>MUSIC\<close> request takes the penalty of 10 and
  the branch with 5 is never reached. Evaluated: the title \<^verbatim>\<open>rock music\<close> is in the music
  vocabulary; at index 2 the score is \<open>15 - 10 + 100 = 105\<close>, the code returns 95 where
  the claim gives \<open>min 100 105 = 100\<close>; the search over three such entries returns the
  confidences 100, 100 and 95.
\<close>

theorem ceiling_penalty_music_evaluated:
  "is_music (example_env True (Inr [])) (example_result ''rock music'')
   \<and> calc_score (example_env True (Inr []))
        \<lparr>fallback_mode = False, audio_only = False, video_only = True\<rparr>
        15 False ''rock music'' MUSIC (example_result ''rock music'') 2 = 95
   \<and> fst (search_youtube
          (example_env True (Inr [example_result ''rock music'', example_result ''rock music'',
             example_result ''rock music'']))
          \<lparr>fallback_mode = False, audio_only = False, video_only = True\<rparr>
          Map.empty ''rock music'' MUSIC)
     = Inr [example_match 100 VIDEO_playback ''rock music'',
            example_match 100 VIDEO_playback ''rock music'',
            example_match 95 VIDEO_playback ''rock music'']"
  using run_music
  by (simp add: is_music_def calc_score_def calc_score_raw_def example_env_def example_fields)

subsection \<open>C2: the first field is used for every term\<close>

text \<open>
  Claim C2. For digit fields \<open>h\<close>, \<open>m\<close> and \<open>s\<close>, the parser returns milliseconds: the
  one-field form gives the field's value times 1000; the forms \<^verbatim>\<open>M:S\<close> and \<^verbatim>\<open>H:M:S\<close> use
  the value of the first field for every term of the sum (\<open>m * 60 + m\<close>, and
  \<open>h * 3600 + h * 60 + h\<close>), then multiply by 1000. The record \<open>r\<close> stands for the
  other keys of the entry.
\<close>

theorem parse_duration_reuses_first_field:
  assumes "digit_field h" and "digit_field m" and "digit_field s"
  shows "parse_duration (r\<lparr>r_length := Some s\<rparr>) = Inr (dec_value s * 1000)
       \<and> parse_duration (r\<lparr>r_length := Some (m @ '':'' @ s)\<rparr>)
           = Inr ((dec_value m * 60 + dec_value m) * 1000)
       \<and> parse_duration (r\<lparr>r_length := Some (h @ '':'' @ m @ '':'' @ s)\<rparr>)
           = Inr ((dec_value h * 60 * 60 + dec_value h * 60 + dec_value h) * 1000)"
proof (intro conjI)
  show "parse_duration (r\<lparr>r_length := Some s\<rparr>) = Inr (dec_value s * 1000)"
    using assms(3) by (rule parse_duration_one_field)
  show "parse_duration (r\<lparr>r_length := Some (m @ '':'' @ s)\<rparr>)
          = Inr ((dec_value m * 60 + dec_value m) * 1000)"
    using assms(2) digit_field_no_colon[OF assms(3)] by (rule parse_duration_two_fields)
  show "parse_duration (r\<lparr>r_length := Some (h @ '':'' @ m @ '':'' @ s)\<rparr>)
          = Inr ((dec_value h * 60 * 60 + dec_value h * 60 + dec_value h) * 1000)"
    using assms(1) digit_field_no_colon[OF assms(2)] digit_field_no_colon[OF assms(3)]
    by (rule parse_duration_three_fields)
qed

text \<open>The examples of the specification: \<^verbatim>\<open>"45"\<close> is 45000 ms and \<^verbatim>\<open>"1:30"\<close> is 61000 ms.\<close>

theorem parse_duration_reuses_first_field_witness:
  "digit_field ''2'' \<and> digit_field ''1'' \<and> digit_field ''30'' \<and> digit_field ''45''
   \<and> parse_duration \<lparr>r_title = ''a'', r_url = ''u'', r_length = Some ''45'', r_thumbnails = []\<rparr>
       = Inr 45000
   \<and> parse_duration \<lparr>r_title = ''a'', r_url = ''u'', r_length = Some ''1:30'', r_thumbnails = []\<rparr>
       = Inr 61000
   \<and> parse_duration \<lparr>r_title = ''a'', r_url = ''u'', r_length = Some ''2:1:30'', r_thumbnails = []\<rparr>
       = Inr 7322000"
proof -
  have d: "digit_field ''2''" "digit_field ''1''" "digit_field ''30''" "digit_field ''45''"
    by (simp_all add: digit_field_def ascii_digit_def)
  have v: "dec_value ''2'' = 2" "dec_value ''1'' = 1" "dec_value ''45'' = 45"
    by (simp_all add: dec_value_def)
  show ?thesis
    using d
      parse_duration_reuses_first_field [OF d(1) d(2) d(3),
        of "\<lparr>r_title = ''a'', r_url = ''u'', r_length = None, r_thumbnails = []\<rparr>"]
      parse_duration_reuses_first_field [OF d(1) d(2) d(4),
        of "\<lparr>r_title = ''a'', r_url = ''u'', r_length = None, r_thumbnails = []\<rparr>"]
    by (simp add: v)
qed

subsection \<open>C3: the fallback penalty\<close>

text \<open>
  Claim C3, as stated, fails: with a score of 125 before the clamp, both runs return
  the confidence 100.
\<close>

theorem fallback_penalty_counterexample:
  "\<not> explicit_request (example_env True (Inr [example_result ''rock music''])) ''rock music''
   \<and> fst (search_youtube (example_env True (Inr [example_result ''rock music'']))
          \<lparr>fallback_mode = False, audio_only = False, video_only = True\<rparr>
          Map.empty ''rock music'' VIDEO)
     = Inr [example_match 100 VIDEO_playback ''rock music'']
   \<and> fst (search_youtube (example_env True (Inr [example_result ''rock music'']))
          \<lparr>fallback_mode = True, audio_only = False, video_only = True\<rparr>
          Map.empty ''rock music'' VIDEO)
     = Inr [example_match 100 VIDEO_playback ''rock music'']"
  using run_video[of False] run_video[of True]
  by (simp add: explicit_request_def example_env_def)

text \<open>
  Claim C3, amended. Without an explicit request, the scorer in fallback mode returns
  \<open>min 100 (s - 25)\<close>, where \<open>s\<close> is the score of the run without fallback mode before
  its clamp. So when the run without fallback mode returns the matches \<open>ms\<close>, the run
  with it returns as many, each the same match but for its confidence, which is lower
  by at most 25, and by exactly 25 when the confidence without fallback mode is below 99
  (then no clamp was applied).
\<close>

theorem fallback_penalty:
  assumes "\<not> explicit_request env phrase"
    and "fst (search_youtube env (st\<lparr>fallback_mode := False\<rparr>) cache phrase mt) = Inr ms"
  shows "calc_score env (st\<lparr>fallback_mode := True\<rparr>) b False p mt' r k
           = min 100 (calc_score_raw env (st\<lparr>fallback_mode := False\<rparr>) b False p mt' r k - 25)
       \<and> (\<exists>ms'. fst (search_youtube env (st\<lparr>fallback_mode := True\<rparr>) cache phrase mt) = Inr ms'
           \<and> length ms' = length ms
           \<and> (\<forall>i<length ms.
                 ms' ! i = (ms ! i)\<lparr>match_confidence := match_confidence (ms' ! i)\<rparr>
               \<and> match_confidence (ms ! i) - 25 \<le> match_confidence (ms' ! i)
               \<and> match_confidence (ms' ! i) \<le> match_confidence (ms ! i)
               \<and> (match_confidence (ms ! i) < 99
                    \<longrightarrow> match_confidence (ms' ! i) = match_confidence (ms ! i) - 25)))"
proof -
  let ?off = "st\<lparr>fallback_mode := False\<rparr>" and ?on = "st\<lparr>fallback_mode := True\<rparr>"
  let ?p = "search_phrase env phrase"
  let ?b = "base_score env phrase mt"
  have rank: "\<And>rs. rank_results env ?off phrase mt rs = Inr ms
          \<Longrightarrow> \<exists>ms'. rank_results env ?on phrase mt rs = Inr ms'
                \<and> list_all2 (\<lambda>c c'. c' = c\<lparr>match_confidence := match_confidence c'\<rparr>
                 \<and> match_confidence c - 25 \<le> match_confidence c'
                 \<and> match_confidence c' \<le> match_confidence c
                 \<and> (match_confidence c < 99 \<longrightarrow> match_confidence c' = match_confidence c - 25))
               ms ms'"
  proof -
    fix rs
    assume "rank_results env ?off phrase mt rs = Inr ms"
    then obtain filtered where f: "filter_results env mt rs = Inr filtered"
      and b: "build_matches env ?off ?b False ?p mt filtered = Inr ms"
      using assms(1) by (auto simp: rank_results_def split: sum.splits)
    from fallback_build_matches[OF b] f assms(1)
    show "\<exists>ms'. rank_results env ?on phrase mt rs = Inr ms'
                \<and> list_all2 (\<lambda>c c'. c' = c\<lparr>match_confidence := match_confidence c'\<rparr>
                 \<and> match_confidence c - 25 \<le> match_confidence c'
                 \<and> match_confidence c' \<le> match_confidence c
                 \<and> (match_confidence c < 99 \<longrightarrow> match_confidence c' = match_confidence c - 25))
               ms ms'"
      by (simp add: rank_results_def)
  qed
  have "\<exists>ms'. fst (search_youtube env ?on cache phrase mt) = Inr ms'
          \<and> list_all2 (\<lambda>c c'. c' = c\<lparr>match_confidence := match_confidence c'\<rparr>
                 \<and> match_confidence c - 25 \<le> match_confidence c'
                 \<and> match_confidence c' \<le> match_confidence c
                 \<and> (match_confidence c < 99 \<longrightarrow> match_confidence c' = match_confidence c - 25))
               ms ms'"
  proof (cases "cache ?p")
    case None
    show ?thesis
    proof (cases "youtube_searcher env ?p")
      case (Inl e)
      then have "ms = []" using assms(2) None by (simp add: search_youtube_def Let_def)
      then show ?thesis using None Inl by (simp add: search_youtube_def Let_def)
    next
      case (Inr rs)
      then have "rank_results env ?off phrase mt rs = Inr ms"
        using assms(2) None by (simp add: search_youtube_def Let_def)
      from rank[OF this] show ?thesis
        using None Inr by (simp add: search_youtube_def Let_def)
    qed
  next
    case (Some rs)
    then have "rank_results env ?off phrase mt rs = Inr ms"
      using assms(2) by (simp add: search_youtube_def Let_def)
    from rank[OF this] show ?thesis
      using Some by (simp add: search_youtube_def Let_def)
  qed
  then have runs: "\<exists>ms'. fst (search_youtube env ?on cache phrase mt) = Inr ms'
           \<and> length ms' = length ms
           \<and> (\<forall>i<length ms.
                 ms' ! i = (ms ! i)\<lparr>match_confidence := match_confidence (ms' ! i)\<rparr>
               \<and> match_confidence (ms ! i) - 25 \<le> match_confidence (ms' ! i)
               \<and> match_confidence (ms' ! i) \<le> match_confidence (ms ! i)
               \<and> (match_confidence (ms ! i) < 99
                    \<longrightarrow> match_confidence (ms' ! i) = match_confidence (ms ! i) - 25))"
    by (auto simp: list_all2_conv_all_nth)
  have "calc_score env ?on b False p mt' r k
          = min 100 (calc_score_raw env ?off b False p mt' r k - 25)"
    by (simp add: calc_score_def calc_score_raw_fallback)
  with runs show ?thesis by blast
qed

theorem fallback_penalty_witness:
  "\<not> explicit_request (example_env True (Inr [example_result ''rock music''])) ''cats''
   \<and> fst (search_youtube (example_env True (Inr [example_result ''rock music'']))
          \<lparr>fallback_mode = False, audio_only = False, video_only = True\<rparr>
          Map.empty ''cats'' GENERIC)
     = Inr [example_match (- 10) VIDEO_playback ''rock music'']
   \<and> (\<exists>ms'. fst (search_youtube (example_env True (Inr [example_result ''rock music'']))
                 \<lparr>fallback_mode = True, audio_only = False, video_only = True\<rparr>
                 Map.empty ''cats'' GENERIC) = Inr ms'
          \<and> length ms' = 1 \<and> ms' ! 0 = example_match (- 35) VIDEO_playback ''rock music'')
   \<and> calc_score (example_env True (Inr [example_result ''rock music'']))
        \<lparr>fallback_mode = True, audio_only = False, video_only = True\<rparr>
        0 False ''cats'' GENERIC (example_result ''rock music'') 0 = - 35"
proof -
  let ?env = "example_env True (Inr [example_result ''rock music''])"
  let ?st = "\<lparr>fallback_mode = False, audio_only = False, video_only = True\<rparr>"
  have ex: "\<not> explicit_request ?env ''cats''"
    by (simp add: explicit_request_def example_env_def)
  have run: "fst (search_youtube ?env (?st\<lparr>fallback_mode := False\<rparr>) Map.empty ''cats'' GENERIC)
               = Inr [example_match (- 10) VIDEO_playback ''rock music'']"
    using run_generic_other by simp
  note inst = fallback_penalty[OF ex run, where b = 0 and p = "''cats''" and mt' = GENERIC
      and r = "example_result ''rock music''" and k = 0]
  have raw: "calc_score_raw ?env ?st 0 False ''cats'' GENERIC (example_result ''rock music'') 0
               = - 10"
    by (simp add: calc_score_raw_def example_env_def example_fields lower_def)
  have score: "calc_score ?env \<lparr>fallback_mode = True, audio_only = False, video_only = True\<rparr>
                 0 False ''cats'' GENERIC (example_result ''rock music'') 0 = - 35"
    using inst [THEN conjunct1] raw by simp
  from inst [THEN conjunct2] obtain ms' where
    ms': "fst (search_youtube ?env (?st\<lparr>fallback_mode := True\<rparr>) Map.empty ''cats'' GENERIC)
            = Inr ms'"
    and len: "length ms' = 1"
    and nth: "ms' ! 0 = (example_match (- 10) VIDEO_playback ''rock music'')
                \<lparr>match_confidence := match_confidence (ms' ! 0)\<rparr>"
    and conf: "match_confidence (example_match (- 10) VIDEO_playback ''rock music'') < 99
                \<longrightarrow> match_confidence (ms' ! 0)
                      = match_confidence (example_match (- 10) VIDEO_playback ''rock music'') - 25"
    by auto
  have "match_confidence (ms' ! 0) = - 35"
    using conf by (simp add: example_match_def)
  then have "ms' ! 0 = example_match (- 35) VIDEO_playback ''rock music''"
    using nth by (simp add: example_match_def)
  then show ?thesis
    using ex run_generic_other ms' len score by auto
qed

subsection \<open>C4: the playback type of the matches\<close>

text \<open>
  Claim C4. The claim asks for \<open>AUDIO_playback\<close> on every match of an \<open>AUDIO\<close> request
  or of a request without a GUI. The method computes that list (\<open>allowed_playback\<close>) and
  never reads it: the playback type follows the settings alone. Evaluated with the
  default settings: a \<open>GENERIC\<close> request without a GUI, and an \<open>AUDIO\<close> request, both
  return a match with \<open>VIDEO_playback\<close>.
\<close>

theorem playback_ignores_allowed_forms:
  "allowed_playback (example_env False (Inr [example_result ''rock music''])) GENERIC
     = [AUDIO_playback]
   \<and> fst (search_youtube (example_env False (Inr [example_result ''rock music'']))
          \<lparr>fallback_mode = False, audio_only = False, video_only = True\<rparr>
          Map.empty ''rock music'' GENERIC)
     = Inr [example_match 90 VIDEO_playback ''rock music'']
   \<and> allowed_playback (example_env True (Inr [example_result ''rock music''])) AUDIO
     = [AUDIO_playback]
   \<and> fst (search_youtube (example_env True (Inr [example_result ''rock music'']))
          \<lparr>fallback_mode = False, audio_only = False, video_only = True\<rparr>
          Map.empty ''rock music'' AUDIO)
     = Inr [example_match 80 VIDEO_playback ''rock music'']"
  using run_no_gui
  by (simp add: allowed_playback_def example_env_def) (simp add: run_defs)

subsection \<open>C5: durations outside the three forms\<close>

text \<open>
  Claim C5. The claim asks for 0 ms on every string that is not one, two or three digit
  fields. The one-field branch tests \<^verbatim>\<open>isdigit\<close> first; the two- and three-field branches
  do not, so \<^verbatim>\<open>"a:30"\<close> raises \<^verbatim>\<open>ValueError\<close> out of \<^verbatim>\<open>int\<close>, and \<^verbatim>\<open>"1:xx"\<close>, whose
  second field is never read, gives 61000 ms.
\<close>

theorem parse_duration_raises_on_non_digit_field:
  "parse_duration \<lparr>r_title = ''a'', r_url = ''u'', r_length = Some ''a:30'', r_thumbnails = []\<rparr>
     = Inl ValueError
   \<and> parse_duration \<lparr>r_title = ''a'', r_url = ''u'', r_length = Some ''1:xx'', r_thumbnails = []\<rparr>
     = Inr 61000"
  by code_simp

subsection \<open>C6: what a search can raise\<close>

text \<open>
  Claim C6, as stated, fails: an entry with no thumbnail makes the search raise
  \<^verbatim>\<open>IndexError\<close>.
\<close>

theorem search_raises_counterexample:
  "fst (search_youtube
          (example_env True (Inr [(example_result ''rock music'')\<lparr>r_thumbnails := []\<rparr>]))
          \<lparr>fallback_mode = False, audio_only = False, video_only = True\<rparr>
          Map.empty ''rock music'' VIDEO)
     = Inl IndexError"
  by (rule run_no_thumbnail)

text \<open>
  Claim C6, amended. When every entry the search works on (the cached list, or the list
  the provider returns) has a thumbnail and a duration that \<^verbatim>\<open>parse_duration\<close> accepts by
  its own checks (\<open>well_formed_entry\<close>: a first field of digits has at most 300 of them,
  so that the seconds fit a float), the search returns a list; a search whose provider
  call raises returns the empty list. Nothing is said of a two- or three-field duration
  whose first field is not made of digits, nor of longer digit fields. The example is a
  \<open>PODCAST\<close> request whose entry passes the filter and becomes a match.
\<close>

theorem search_returns_on_well_formed_results:
  assumes "case cache (search_phrase env phrase) of
             Some rs \<Rightarrow> list_all well_formed_entry rs
           | None \<Rightarrow>
               (case youtube_searcher env (search_phrase env phrase) of
                  Inl e \<Rightarrow> True
                | Inr rs \<Rightarrow> list_all well_formed_entry rs)"
  shows "\<exists>ms. fst (search_youtube env st cache phrase mt) = Inr ms
           \<and> (case cache (search_phrase env phrase) of
                 Some rs \<Rightarrow> True
               | None \<Rightarrow>
                   (case youtube_searcher env (search_phrase env phrase) of
                      Inl e \<Rightarrow> ms = []
                    | Inr rs \<Rightarrow> True))"
proof (cases "cache (search_phrase env phrase)")
  case None
  show ?thesis
  proof (cases "youtube_searcher env (search_phrase env phrase)")
    case (Inl e)
    then show ?thesis using None by (simp add: search_youtube_def Let_def)
  next
    case (Inr rs)
    then have "list_all well_formed_entry rs" using assms None by simp
    from rank_results_total[OF this] show ?thesis
      using None Inr by (simp add: search_youtube_def Let_def)
  qed
next
  case (Some rs)
  then have "list_all well_formed_entry rs" using assms by simp
  from rank_results_total[OF this] show ?thesis
    using Some by (simp add: search_youtube_def Let_def)
qed

theorem search_returns_on_well_formed_results_witness:
  "Map.empty (search_phrase (example_podcast_env (Inr [example_podcast])) ''tech podcast'')
     = (None :: rawresult list option)
   \<and> youtube_searcher (example_podcast_env (Inr [example_podcast]))
        (search_phrase (example_podcast_env (Inr [example_podcast])) ''tech podcast'')
     = Inr [example_podcast]
   \<and> list_all well_formed_entry [example_podcast]
   \<and> (\<exists>ms. fst (search_youtube (example_podcast_env (Inr [example_podcast]))
                \<lparr>fallback_mode = False, audio_only = False, video_only = True\<rparr>
                Map.empty ''tech podcast'' PODCAST) = Inr ms)
   \<and> fst (search_youtube (example_podcast_env (Inr [example_podcast]))
          \<lparr>fallback_mode = False, audio_only = False, video_only = True\<rparr>
          Map.empty ''tech podcast'' PODCAST)
     = Inr [\<lparr>match_confidence = 90, media_type = VIDEO, length_ms = 1891000,
             uri = ''https://youtu.be/2'', playback = VIDEO_playback,
             image = ''https://i.ytimg.com/2.jpg'', bg_image = ''https://i.ytimg.com/2.jpg'',
             skill_icon = ''ui/ytube.jpg'', skill_logo = ''ui/ytube.jpg'',
             title = ''tech podcast'', skill_id = ''skill-simple-youtube''\<rparr>]"
proof -
  let ?env = "example_podcast_env (Inr [example_podcast])"
  have p: "youtube_searcher ?env (search_phrase ?env ''tech podcast'') = Inr [example_podcast]"
    by (simp add: example_podcast_env_def)
  have wf: "list_all well_formed_entry [example_podcast]"
    by (simp add: example_podcast_well_formed)
  have "case Map.empty (search_phrase ?env ''tech podcast'') of
             Some rs \<Rightarrow> list_all well_formed_entry rs
           | None \<Rightarrow>
               (case youtube_searcher ?env (search_phrase ?env ''tech podcast'') of
                  Inl e \<Rightarrow> True
                | Inr rs \<Rightarrow> list_all well_formed_entry rs)"
    using wf by (simp add: p)
  from search_returns_on_well_formed_results[OF this,
      of "\<lparr>fallback_mode = False, audio_only = False, video_only = True\<rparr>" PODCAST]
  have "\<exists>ms. fst (search_youtube ?env
                \<lparr>fallback_mode = False, audio_only = False, video_only = True\<rparr>
                Map.empty ''tech podcast'' PODCAST) = Inr ms"
    by auto
  then show ?thesis using p wf run_podcast by simp
qed

subsection \<open>C7: the confidence is at most 100 and has no lower bound\<close>

text \<open>
  Claim C7. Every match a search returns has a confidence of at most 100; and for every
  bound \<open>B\<close> some search returns a match with a confidence below \<open>B\<close>.
\<close>

theorem confidence_at_most_100:
  "(fst (search_youtube env st cache phrase mt) = Inr ms
      \<longrightarrow> (\<forall>c \<in> set ms. match_confidence c \<le> 100))
   \<and> (\<forall>B. \<exists>env' st' cache' phrase' mt' ms' c.
          fst (search_youtube env' st' cache' phrase' mt') = Inr ms'
          \<and> c \<in> set ms' \<and> match_confidence c < B)"
proof (intro conjI impI ballI allI)
  fix c
  assume run: "fst (search_youtube env st cache phrase mt) = Inr ms" and c: "c \<in> set ms"
  from search_youtube_cases[OF run] c obtain filtered where
    "build_matches env st (base_score env phrase mt) (explicit_request env phrase)
       (search_phrase env phrase) mt filtered = Inr ms"
    by auto
  from build_matches_elem[OF this c] obtain i where
    "audio_only_entry env st (base_score env phrase mt) (explicit_request env phrase)
       (search_phrase env phrase) mt i (filtered ! i) = Inr c
     \<or> video_entry env st (base_score env phrase mt) (explicit_request env phrase)
       (search_phrase env phrase) mt i (filtered ! i) = Inr c
     \<or> audio_duplicate_entry env st (base_score env phrase mt) (explicit_request env phrase)
       (search_phrase env phrase) mt i (filtered ! i) = Inr c"
    by blast
  then have "\<exists>s. s \<le> 100 \<and> (match_confidence c = s \<or> match_confidence c = s - 1)"
    unfolding audio_only_entry_def video_entry_def audio_duplicate_entry_def
    using calc_score_le match_entry_fields(1) by blast
  then show "match_confidence c \<le> 100" by auto
next
  fix B :: real
  define n where "n = nat \<lceil>\<bar>B\<bar>\<rceil>"
  define r0 where "r0 = example_result ''rock music''"
  define rs where "rs = replicate (Suc n) r0"
  define env' where "env' = example_env True (Inr rs)"
  define st' where "st' = \<lparr>fallback_mode = False, audio_only = False, video_only = True\<rparr>"
  define f where "f = video_entry env' st' 0 False ''cats'' GENERIC"
  have tot: "\<And>i r. r \<in> set rs \<Longrightarrow> \<exists>c. f i r = Inr c"
    by (auto simp: f_def rs_def r0_def video_entry_def match_entry_def example_parse example_image)
  from comprehension_total[of rs f 0, OF tot] obtain ms' where
    ms': "comprehension f 0 rs = Inr ms'" by blast
  have len: "length ms' = Suc n"
    using comprehension_length[OF ms'] by (simp add: rs_def)
  have "rs ! n = r0" unfolding rs_def by (rule nth_replicate) simp
  then have nth: "f n r0 = Inr (ms' ! n)"
    using comprehension_nth[OF ms', of n] by (simp add: rs_def)
  have sim: "fuzzy_match env' (lower ''cats'') (lower (r_title r0)) = 0"
    by (simp add: env'_def example_env_def r0_def example_result_def lower_def)
  have "match_confidence (ms' ! n) = calc_score env' st' 0 False ''cats'' GENERIC r0 n"
    using match_entry_fields(1)[OF nth[unfolded f_def video_entry_def]] .
  also have "\<dots> = min 100 (- (5 * real n) - 10)"
    by (simp add: calc_score_def calc_score_raw_def Let_def sim st'_def)
  also have "\<dots> < B"
  proof -
    have "\<bar>B\<bar> \<le> real n" unfolding n_def by linarith
    then show ?thesis by (simp add: min_def)
  qed
  finally have lt: "match_confidence (ms' ! n) < B" .
  have run: "fst (search_youtube env' st' Map.empty ''cats'' GENERIC) = Inr ms'"
    using ms'
    by (simp add: search_youtube_def Let_def rank_results_def filter_results_def
        build_matches_def search_phrase_def explicit_request_def base_score_def
        env'_def example_env_def st'_def f_def)
  have "ms' ! n \<in> set ms'" using len by simp
  with run lt show "\<exists>env' st' cache' phrase' mt' ms' c.
          fst (search_youtube env' st' cache' phrase' mt') = Inr ms'
          \<and> c \<in> set ms' \<and> match_confidence c < B"
    by blast
qed

theorem confidence_at_most_100_witness:
  "fst (search_youtube (example_env True (Inr [example_result ''rock music'']))
          \<lparr>fallback_mode = False, audio_only = False, video_only = False\<rparr>
          Map.empty ''rock music'' VIDEO)
     = Inr [example_match 100 VIDEO_playback ''rock music'',
            example_match 99 AUDIO_playback ''rock music (audio only)'']
   \<and> match_confidence (example_match 100 VIDEO_playback ''rock music'') \<le> 100
   \<and> match_confidence (example_match 99 AUDIO_playback ''rock music (audio only)'') \<le> 100"
  using run_both confidence_at_most_100 [THEN conjunct1, rule_format, OF run_both]
  by simp

subsection \<open>C8: the audio duplicates\<close>

text \<open>
  Claim C8. With neither \<^verbatim>\<open>audio_only\<close> nor \<^verbatim>\<open>video_only\<close> set, every returned match
  \<open>c\<close> with \<open>VIDEO_playback\<close> comes with its duplicate: the same match with
  \<open>AUDIO_playback\<close>, the confidence lowered by 1 and the title followed by
  \<^verbatim>\<open> (audio only)\<close>; the uri and every other key are those of \<open>c\<close>.
\<close>

theorem audio_duplicate_present:
  assumes "\<not> audio_only st" and "\<not> video_only st"
    and "fst (search_youtube env st cache phrase mt) = Inr ms"
    and "c \<in> set ms" and "playback c = VIDEO_playback"
  shows "c\<lparr>match_confidence := match_confidence c - 1, playback := AUDIO_playback,
           title := title c @ '' (audio only)''\<rparr> \<in> set ms"
proof -
  let ?b = "base_score env phrase mt" and ?ex = "explicit_request env phrase"
  let ?p = "search_phrase env phrase"
  from search_youtube_cases[OF assms(3)] assms(4) obtain rs where
    b: "build_matches env st ?b ?ex ?p mt rs = Inr ms" by auto
  from b assms(1,2) obtain vs dups where
    vs: "comprehension (video_entry env st ?b ?ex ?p mt) 0 rs = Inr vs"
    and dups: "comprehension (audio_duplicate_entry env st ?b ?ex ?p mt) 0 rs = Inr dups"
    and ms: "ms = vs @ dups"
    by (auto simp: build_matches_def split: sum.splits)
  have "c \<notin> set dups"
  proof
    assume "c \<in> set dups"
    from comprehension_elem[OF dups this] obtain i where
      "audio_duplicate_entry env st ?b ?ex ?p mt (0 + i) (rs ! i) = Inr c" by blast
    then have "playback c = AUDIO_playback"
      unfolding audio_duplicate_entry_def by (rule match_entry_fields(2))
    with assms(5) show False by simp
  qed
  with assms(4) ms have "c \<in> set vs" by simp
  from comprehension_elem[OF vs this] obtain i where
    i: "i < length rs" and e: "video_entry env st ?b ?ex ?p mt (0 + i) (rs ! i) = Inr c" by blast
  have e': "match_entry env (calc_score env st ?b ?ex ?p mt (rs ! i) i) VIDEO_playback
              (r_title (rs ! i)) (rs ! i) = Inr c"
    using e by (simp add: video_entry_def)
  have conf: "match_confidence c = calc_score env st ?b ?ex ?p mt (rs ! i) i"
    and ttl: "title c = r_title (rs ! i)"
    using match_entry_fields(1,3)[OF e'] by simp_all
  have "audio_duplicate_entry env st ?b ?ex ?p mt (0 + i) (rs ! i) = Inr (dups ! i)"
    using dups i by (rule comprehension_nth)
  then have "dups ! i = c\<lparr>match_confidence := match_confidence c - 1,
                playback := AUDIO_playback, title := title c @ '' (audio only)''\<rparr>"
    using match_entry_other[OF e'] by (simp add: audio_duplicate_entry_def conf ttl)
  moreover have "dups ! i \<in> set dups"
    using i comprehension_length[OF dups] by simp
  ultimately show ?thesis using ms by simp
qed

theorem audio_duplicate_present_witness:
  "\<not> audio_only \<lparr>fallback_mode = False, audio_only = False, video_only = False\<rparr>
   \<and> \<not> video_only \<lparr>fallback_mode = False, audio_only = False, video_only = False\<rparr>
   \<and> fst (search_youtube (example_env True (Inr [example_result ''rock music'']))
          \<lparr>fallback_mode = False, audio_only = False, video_only = False\<rparr>
          Map.empty ''rock music'' VIDEO)
     = Inr [example_match 100 VIDEO_playback ''rock music'',
            example_match 99 AUDIO_playback ''rock music (audio only)'']
   \<and> playback (example_match 100 VIDEO_playback ''rock music'') = VIDEO_playback
   \<and> (example_match 100 VIDEO_playback ''rock music'')
        \<lparr>match_confidence := match_confidence (example_match 100 VIDEO_playback ''rock music'') - 1,
         playback := AUDIO_playback,
         title := title (example_match 100 VIDEO_playback ''rock music'') @ '' (audio only)''\<rparr>
       \<in> set [example_match 100 VIDEO_playback ''rock music'',
              example_match 99 AUDIO_playback ''rock music (audio only)'']"
proof -
  let ?st = "\<lparr>fallback_mode = False, audio_only = False, video_only = False\<rparr>"
  have a: "\<not> audio_only ?st" and v: "\<not> video_only ?st" by simp_all
  have m: "example_match 100 VIDEO_playback ''rock music''
             \<in> set [example_match 100 VIDEO_playback ''rock music'',
                    example_match 99 AUDIO_playback ''rock music (audio only)'']"
    by simp
  have pb: "playback (example_match 100 VIDEO_playback ''rock music'') = VIDEO_playback"
    by (simp add: example_match_def)
  from audio_duplicate_present[OF a v run_both m pb] a v run_both pb
  show ?thesis by blast
qed

subsection \<open>C9: the number of matches\<close>

text \<open>
  Claim C9. When the search works on the results \<open>rs\<close> (cached, or returned by the
  provider) and returns the matches \<open>ms\<close>, the filter succeeded on \<open>rs\<close>, and \<open>ms\<close> has
  as many elements as the filtered list when \<^verbatim>\<open>audio_only\<close> or \<^verbatim>\<open>video_only\<close> is set, and
  twice as many when neither is.
\<close>

theorem number_of_matches:
  assumes "cache (search_phrase env phrase) = Some rs
         \<or> (cache (search_phrase env phrase) = None
            \<and> youtube_searcher env (search_phrase env phrase) = Inr rs)"
    and "fst (search_youtube env st cache phrase mt) = Inr ms"
  shows "\<exists>filtered. filter_results env mt rs = Inr filtered
           \<and> length ms = (if audio_only st \<or> video_only st then length filtered
                           else 2 * length filtered)"
proof -
  from assms have "rank_results env st phrase mt rs = Inr ms"
    by (auto simp: search_youtube_def Let_def)
  then obtain filtered where f: "filter_results env mt rs = Inr filtered"
    and b: "build_matches env st (base_score env phrase mt) (explicit_request env phrase)
              (search_phrase env phrase) mt filtered = Inr ms"
    by (auto simp: rank_results_def split: sum.splits)
  have "length ms = (if audio_only st \<or> video_only st then length filtered
                     else 2 * length filtered)"
    using b
    by (auto simp: build_matches_def split: if_splits sum.splits dest!: comprehension_length)
  with f show ?thesis by blast
qed

theorem number_of_matches_witness:
  "Map.empty (search_phrase (example_env True (Inr [example_result ''rock music''])) ''rock music'')
     = (None :: rawresult list option)
   \<and> youtube_searcher (example_env True (Inr [example_result ''rock music'']))
        (search_phrase (example_env True (Inr [example_result ''rock music''])) ''rock music'')
     = Inr [example_result ''rock music'']
   \<and> fst (search_youtube (example_env True (Inr [example_result ''rock music'']))
          \<lparr>fallback_mode = False, audio_only = False, video_only = False\<rparr>
          Map.empty ''rock music'' VIDEO)
     = Inr [example_match 100 VIDEO_playback ''rock music'',
            example_match 99 AUDIO_playback ''rock music (audio only)'']
   \<and> (\<exists>filtered. filter_results (example_env True (Inr [example_result ''rock music''])) VIDEO
                    [example_result ''rock music''] = Inr filtered
          \<and> length [example_match 100 VIDEO_playback ''rock music'',
                     example_match 99 AUDIO_playback ''rock music (audio only)'']
              = 2 * length filtered)"
proof -
  let ?env = "example_env True (Inr [example_result ''rock music''])"
  have p: "youtube_searcher ?env (search_phrase ?env ''rock music'')
             = Inr [example_result ''rock music'']"
    by (simp add: example_env_def)
  have h: "Map.empty (search_phrase ?env ''rock music'') = Some [example_result ''rock music'']
         \<or> (Map.empty (search_phrase ?env ''rock music'') = None
            \<and> youtube_searcher ?env (search_phrase ?env ''rock music'')
                = Inr [example_result ''rock music''])"
    using p by simp
  from number_of_matches[OF h run_both] p run_both show ?thesis by simp
qed

subsection \<open>C10: a failing provider\<close>

text \<open>
  Claim C10. On a cache miss, an exception of the provider makes the search return the
  empty list with the cache as it was. In every case the cache after the call is the
  cache before it, or that cache with the provider's results stored under the searched
  phrase, the latter on a cache miss with a successful provider call only.
\<close>

theorem provider_failure_gives_empty_list:
  "(cache (search_phrase env phrase) = None
      \<and> youtube_searcher env (search_phrase env phrase) = Inl e
    \<longrightarrow> search_youtube env st cache phrase mt = (Inr [], cache))
   \<and> snd (search_youtube env st cache phrase mt)
       = (case cache (search_phrase env phrase) of
            Some rs \<Rightarrow> cache
          | None \<Rightarrow>
              (case youtube_searcher env (search_phrase env phrase) of
                 Inl e' \<Rightarrow> cache
               | Inr rs \<Rightarrow> cache(search_phrase env phrase \<mapsto> rs)))"
  by (auto simp: search_youtube_def Let_def split: option.splits sum.splits)

theorem provider_failure_gives_empty_list_witness:
  "Map.empty (search_phrase (example_env True (Inl (OtherException ''HTTP Error 429'')))
       ''rock music'') = (None :: rawresult list option)
   \<and> youtube_searcher (example_env True (Inl (OtherException ''HTTP Error 429'')))
        (search_phrase (example_env True (Inl (OtherException ''HTTP Error 429''))) ''rock music'')
     = Inl (OtherException ''HTTP Error 429'')
   \<and> search_youtube (example_env True (Inl (OtherException ''HTTP Error 429'')))
        \<lparr>fallback_mode = False, audio_only = False, video_only = True\<rparr>
        Map.empty ''rock music'' VIDEO
     = (Inr [], Map.empty)"
proof -
  let ?env = "example_env True (Inl (OtherException ''HTTP Error 429''))"
  have p: "youtube_searcher ?env (search_phrase ?env ''rock music'')
             = Inl (OtherException ''HTTP Error 429'')"
    by (simp add: example_env_def)
  have c: "Map.empty (search_phrase ?env ''rock music'') = (None :: rawresult list option)"
    by simp
  from provider_failure_gives_empty_list [THEN conjunct1, rule_format, OF conjI, OF c p]
  show ?thesis using p by simp
qed

end
